theory Spec2Isabelle
  imports Complex_Main
begin

section \<open>Fx, the base class of the MooTools effects (Effects/Fx.js)\<close>

subsection \<open>Data model\<close>

text \<open>
  The \<open>options\<close> object of the class. \<open>unit\<close> defaults to \<open>false\<close> in the source, which is
  \<open>None\<close> here. All JavaScript numbers are modelled as real numbers, as the specification's
  data model does.
\<close>

record options =
  transition :: "real \<Rightarrow> real"
  duration :: real
  unit :: "string option"
  wait :: bool
  fps :: real

text \<open>The default transition of the source: \<open>-(Math.cos(Math.PI * p) - 1) / 2\<close>.\<close>

definition default_transition :: "real \<Rightarrow> real" where
  "default_transition p = - (cos (pi * p) - 1) / 2"

definition default_options :: options where
  "default_options =
     \<lparr>transition = default_transition, duration = 500, unit = None, wait = True, fps = 50\<rparr>"

datatype event_name = onStart | onSet | onComplete | onCancel

text \<open>
  Every call that leaves the class is recorded, in program order, in a trace:
  \<^item> \<open>Transition p\<close>: \<open>this.options.transition(p)\<close> was called;
  \<^item> \<open>Increase v\<close>: the hook \<open>this.increase()\<close> was called while \<open>this.now\<close> was \<open>v\<close>;
  \<^item> \<open>FireEvent ev el d\<close>: \<open>this.fireEvent(ev, el, d)\<close> was called (\<open>d\<close> is the optional
    delay in milliseconds);
  \<^item> \<open>Periodical p h\<close>: \<open>this.step.periodical(p, this)\<close> was called and returned handle \<open>h\<close>;
  \<^item> \<open>Clear h\<close>: \<open>$clear(h)\<close> was called.
\<close>

datatype 'e obs =
    Transition real
  | Increase real
  | FireEvent event_name 'e "nat option"
  | Periodical "int option" nat
  | Clear nat

text \<open>
  An instance. \<open>'a\<close> is the type of the callables queued on the chain, \<open>'e\<close> the type
  of the element. \<open>timer\<close> is \<open>None\<close> when the property is unset or null; a handle
  returned by the host is never falsy. The last three fields are the world around the
  instance: what \<open>$time()\<close> returns, the next timer handle of the host, and the trace.
  A numeric field holds some number before its first assignment.
\<close>

record ('a, 'e) fx =
  element :: 'e
  options :: options
  "from" :: real
  to :: real
  change :: real
  time :: real
  delta :: real
  now :: real
  timer :: "nat option"
  chain_queue :: "'a list"
  clock :: real
  next_handle :: nat
  trace :: "'e obs list"

subsection \<open>Collaborators that are not part of Fx.js\<close>

text \<open>
  Modelled from the spec: \<open>Events.fireEvent\<close> is missing from the sources. The event emitter
  is an external collaborator (\<open>fire(name, payload, delayMs?)\<close>); the call is recorded with
  its payload and its delay, and the listeners are not run by the model.
\<close>

definition fireEvent :: "event_name \<Rightarrow> 'e \<Rightarrow> nat option \<Rightarrow> ('a, 'e) fx \<Rightarrow> ('a, 'e) fx" where
  "fireEvent ev el d s = s\<lparr>trace := trace s @ [FireEvent ev el d]\<rparr>"

text \<open>
  Modelled from the spec: the hook \<open>increase\<close> is supplied by the concrete effect. It
  projects \<open>this.now\<close> on the element; the call is recorded with the value it sees.
\<close>

definition increase :: "('a, 'e) fx \<Rightarrow> ('a, 'e) fx" where
  "increase s = s\<lparr>trace := trace s @ [Increase (now s)]\<rparr>"

text \<open>
  Modelled from the spec: \<open>Chain.chain\<close> and \<open>Chain.callChain\<close> are missing from the sources.
  \<open>append(callable)\<close> queues at the end; \<open>drainNext()\<close> pops and invokes the
  earliest-queued callable with the instance as receiver, and does nothing on an empty
  queue. What invoking a callable does is the parameter \<open>run\<close>.
\<close>

definition chain_fx :: "'a \<Rightarrow> ('a, 'e) fx \<Rightarrow> ('a, 'e) fx" where
  "chain_fx f s = s\<lparr>chain_queue := chain_queue s @ [f]\<rparr>"

definition callChain :: "('a \<Rightarrow> ('a, 'e) fx \<Rightarrow> ('a, 'e) fx) \<Rightarrow> ('a, 'e) fx \<Rightarrow> ('a, 'e) fx" where
  "callChain run s =
     (case chain_queue s of
        [] \<Rightarrow> s
      | f # fs \<Rightarrow> run f (s\<lparr>chain_queue := fs\<rparr>))"

text \<open>
  Modelled from the spec: the timer primitive (\<open>schedule(callback, intervalMs) -> Handle\<close>,
  \<open>cancel(Handle)\<close>). \<open>Math.round\<close> rounds halves upwards; \<open>1000 / fps\<close> is no finite
  number when \<open>fps\<close> is 0, which is the period \<open>None\<close>.
\<close>

definition js_round :: "real \<Rightarrow> int" where
  "js_round x = \<lfloor>x + 1 / 2\<rfloor>"

definition period :: "real \<Rightarrow> int option" where
  "period f = (if f = 0 then None else Some (js_round (1000 / f)))"

definition periodical :: "int option \<Rightarrow> ('a, 'e) fx \<Rightarrow> nat \<times> ('a, 'e) fx" where
  "periodical p s =
     (next_handle s,
      s\<lparr>next_handle := Suc (next_handle s), trace := trace s @ [Periodical p (next_handle s)]\<rparr>)"

definition clear :: "nat \<Rightarrow> ('a, 'e) fx \<Rightarrow> ('a, 'e) fx" where
  "clear h s = s\<lparr>trace := trace s @ [Clear h]\<rparr>"

subsection \<open>The methods of the class\<close>

text \<open>\<open>compute: function(from, to){ return (to - from) * this.delta + from; }\<close>\<close>

definition compute :: "real \<Rightarrow> real \<Rightarrow> ('a, 'e) fx \<Rightarrow> real" where
  "compute a b s = (b - a) * delta s + a"

definition setNow :: "('a, 'e) fx \<Rightarrow> ('a, 'e) fx" where
  "setNow s = s\<lparr>now := compute (from s) (to s) s\<rparr>"

text \<open>
  \<open>stop: function(ignore)\<close>. Without a timer it returns at once; otherwise the timer is
  cleared (\<open>$clear\<close> returns null) and \<open>onCancel\<close> is fired unless \<open>ignore\<close> is true.
\<close>

definition stop :: "bool \<Rightarrow> ('a, 'e) fx \<Rightarrow> ('a, 'e) fx" where
  "stop ignore s =
     (case timer s of
        None \<Rightarrow> s
      | Some h \<Rightarrow>
          (let s1 = (clear h s)\<lparr>timer := None\<rparr>
           in if \<not> ignore then fireEvent onCancel (element s1) None s1 else s1))"

text \<open>\<open>set: function(to)\<close>\<close>

definition set_fx :: "real \<Rightarrow> ('a, 'e) fx \<Rightarrow> ('a, 'e) fx" where
  "set_fx v s =
     (let s1 = s\<lparr>now := v\<rparr>;
          s2 = increase s1
      in fireEvent onSet (element s2) None s2)"

text \<open>
  \<open>start: function(from, to)\<close>. The first two lines either stop the current run
  (\<open>wait\<close> false; \<open>stop()\<close> has no argument, so \<open>ignore\<close> is falsy), or return the instance
  as it is (\<open>wait\<close> true and a timer set), or fall through.
\<close>

definition start :: "real \<Rightarrow> real \<Rightarrow> ('a, 'e) fx \<Rightarrow> ('a, 'e) fx" where
  "start a b s =
     (case (if \<not> wait (options s) then Some (stop False s)
            else if timer s \<noteq> None then None
            else Some s) of
        None \<Rightarrow> s
      | Some s1 \<Rightarrow>
          (let s2 = s1\<lparr>from := a\<rparr>;
               s3 = s2\<lparr>to := b\<rparr>;
               s4 = s3\<lparr>change := to s3 - from s3\<rparr>;
               s5 = s4\<lparr>time := clock s4\<rparr>;
               (h, s6) = periodical (period (fps (options s5))) s5;
               s7 = s6\<lparr>timer := Some h\<rparr>
           in fireEvent onStart (element s7) None s7))"

text \<open>
  \<open>step: function()\<close>, the callback of the timer. \<open>t\<close> is the value of \<open>$time()\<close>.
  With \<open>duration\<close> 0 and the clock behind \<open>this.time\<close> the quotient of the source is
  \<open>-Infinity\<close>, which is no real number (the quotient of HOL is 0 there); the properties
  that speak of the quotient exclude this case.
\<close>

definition step :: "('a \<Rightarrow> ('a, 'e) fx \<Rightarrow> ('a, 'e) fx) \<Rightarrow> ('a, 'e) fx \<Rightarrow> ('a, 'e) fx" where
  "step run s =
     (let t = clock s in
      if t < time s + duration (options s) then
        (let p = (t - time s) / duration (options s);
             s1 = s\<lparr>trace := trace s @ [Transition p]\<rparr>;
             s2 = s1\<lparr>delta := transition (options s1) p\<rparr>;
             s3 = setNow s2
         in increase s3)
      else
        (let s1 = stop True s;
             s2 = s1\<lparr>now := to s1\<rparr>;
             s3 = increase s2;
             s4 = fireEvent onComplete (element s3) (Some 10) s3
         in callChain run s4))"

subsection \<open>The host and the caller\<close>

text \<open>
  Modelled from the spec: what reaches an instance from outside. The host runs the
  callback of a periodic schedule only while the schedule is live, that is while \<open>timer\<close>
  holds its handle; \<open>Tick t\<close> is one firing of the timer at clock reading \<open>t\<close>. The
  other calls are the public methods and \<open>chain\<close>.
\<close>

datatype 'a call =
    Tick real
  | CallSet real
  | CallStart real real
  | CallStop bool
  | CallChain 'a

fun invoke :: "('a \<Rightarrow> ('a, 'e) fx \<Rightarrow> ('a, 'e) fx) \<Rightarrow> 'a call \<Rightarrow> ('a, 'e) fx \<Rightarrow> ('a, 'e) fx" where
  "invoke run (Tick t) s =
     (if timer s = None then s\<lparr>clock := t\<rparr> else step run (s\<lparr>clock := t\<rparr>))"
| "invoke run (CallSet v) s = set_fx v s"
| "invoke run (CallStart a b) s = start a b s"
| "invoke run (CallStop i) s = stop i s"
| "invoke run (CallChain f) s = chain_fx f s"

fun invoke_all :: "('a \<Rightarrow> ('a, 'e) fx \<Rightarrow> ('a, 'e) fx) \<Rightarrow> 'a call list \<Rightarrow> ('a, 'e) fx \<Rightarrow> ('a, 'e) fx" where
  "invoke_all run [] s = s"
| "invoke_all run (c # cs) s = invoke_all run cs (invoke run c s)"

text \<open>
  The calls that leave the run of \<open>s\<close> in progress: a tick before the duration has
  elapsed, \<open>set\<close>, \<open>chain\<close>, and a \<open>start\<close> that the \<open>wait\<close> option turns down.
\<close>

fun in_run :: "('a, 'e) fx \<Rightarrow> 'a call \<Rightarrow> bool" where
  "in_run s (Tick t) = (t < time s + duration (options s))"
| "in_run s (CallSet v) = True"
| "in_run s (CallStart a b) = wait (options s)"
| "in_run s (CallStop i) = False"
| "in_run s (CallChain f) = True"

text \<open>The callables that a list of calls queues, in the order of the calls.\<close>

fun chained :: "'a call list \<Rightarrow> 'a list" where
  "chained [] = []"
| "chained (CallChain f # cs) = f # chained cs"
| "chained (_ # cs) = chained cs"

text \<open>Two instances that agree on the run they are in (used for invariants).\<close>

definition same_run :: "('a, 'e) fx \<Rightarrow> ('a, 'e) fx \<Rightarrow> bool" where
  "same_run u v \<longleftrightarrow>
     element v = element u \<and> options v = options u \<and> from v = from u \<and> to v = to u
     \<and> change v = change u \<and> time v = time u \<and> timer v = timer u
     \<and> next_handle v = next_handle u"

text \<open>Two instances that are equal in every field except, possibly, \<open>change\<close>.\<close>

definition differ_only_in_change :: "('a, 'e) fx \<Rightarrow> ('a, 'e) fx \<Rightarrow> bool" where
  "differ_only_in_change u v \<longleftrightarrow> u\<lparr>change := 0\<rparr> = v\<lparr>change := 0\<rparr>"

subsection \<open>When the listeners of an event run\<close>

text \<open>
  Modelled from the spec: the event emitter \<open>fire(name, payload, delayMs?)\<close> "invokes
  listeners, optionally deferred". A call of \<open>fireEvent\<close> without a delay invokes the
  listeners during the call; a call with a delay hands them to a timeout of the host,
  which runs no earlier than the delay after the call and never inside the callback
  that made the call. \<open>delivered\<close> lists the events of a trace whose listeners have
  run when the trace ends, \<open>deferred\<close> those that then await the host's timeout,
  with their delay.
\<close>

fun delivered :: "'e obs list \<Rightarrow> (event_name \<times> 'e) list" where
  "delivered [] = []"
| "delivered (FireEvent ev el None # tr) = (ev, el) # delivered tr"
| "delivered (_ # tr) = delivered tr"

fun deferred :: "'e obs list \<Rightarrow> (event_name \<times> 'e \<times> nat) list" where
  "deferred [] = []"
| "deferred (FireEvent ev el (Some d) # tr) = (ev, el, d) # deferred tr"
| "deferred (_ # tr) = deferred tr"

subsection \<open>Sample data for concrete runs\<close>

text \<open>
  A sample instance on the element \<open>container\<close>: the options are set, no run is
  active, nothing is queued, the host's next handle is 1 and the clock reads 0. The
  numeric fields are all 0.
\<close>

definition sample_fx :: "options \<Rightarrow> (real \<times> real, string) fx" where
  "sample_fx opts =
     \<lparr>element = ''container'', options = opts, from = 0, to = 0, change = 0, time = 0,
      delta = 0, now = 0, timer = None, chain_queue = [], clock = 0, next_handle = 1,
      trace = []\<rparr>"

text \<open>
  The chained callable of the class documentation, \<open>function(){ this.start(0, 1); }\<close>:
  a pair \<open>(a, b)\<close> stands for the callable that calls \<open>this.start(a, b)\<close>.
\<close>

definition restart :: "real \<times> real \<Rightarrow> (real \<times> real, 'e) fx \<Rightarrow> (real \<times> real, 'e) fx" where
  "restart f s = start (fst f) (snd f) s"

text \<open>The options of the specification's example, with a linear transition.\<close>

definition linear_options :: options where
  "linear_options =
     \<lparr>transition = (\<lambda>p. p), duration = 100, unit = None, wait = True, fps = 50\<rparr>"

text \<open>Options whose transition dips below 0 on the way (an overshooting easing).\<close>

definition overshoot_options :: options where
  "overshoot_options =
     \<lparr>transition = (\<lambda>p. p * p * (3 * p - 2)), duration = 500, unit = None, wait = True,
      fps = 50\<rparr>"

section \<open>Properties\<close>

lemmas run_defs = sample_fx_def default_options_def default_transition_def linear_options_def
  overshoot_options_def restart_def start_def stop_def step_def set_fx_def setNow_def
  compute_def increase_def fireEvent_def callChain_def chain_fx_def periodical_def clear_def
  period_def js_round_def Let_def

subsection \<open>The methods, branch by branch\<close>

lemma stop_running:
  "timer s = Some h \<Longrightarrow>
   stop ignore s =
     s\<lparr>timer := None,
       trace := trace s @ (if ignore then [Clear h]
                           else [Clear h, FireEvent onCancel (element s) None])\<rparr>"
  by (simp add: stop_def clear_def fireEvent_def)

lemma start_idle:
  "timer s = None \<Longrightarrow>
   start a b s =
     s\<lparr>from := a, to := b, change := b - a, time := clock s,
       timer := Some (next_handle s), next_handle := Suc (next_handle s),
       trace := trace s @ [Periodical (period (fps (options s))) (next_handle s),
                           FireEvent onStart (element s) None]\<rparr>"
  by (simp add: start_def stop_def periodical_def fireEvent_def)

lemma start_accepted:
  "wait (options s) \<longrightarrow> timer s = None \<Longrightarrow>
   from (start a b s) = a \<and> to (start a b s) = b \<and> change (start a b s) = b - a
   \<and> time (start a b s) = clock s \<and> timer (start a b s) = Some (next_handle s)
   \<and> options (start a b s) = options s \<and> element (start a b s) = element s
   \<and> chain_queue (start a b s) = chain_queue s"
  by (cases "timer s")
     (auto simp add: start_def stop_def clear_def periodical_def fireEvent_def Let_def)

lemma step_completes:
  "\<not> clock s < time s + duration (options s) \<Longrightarrow>
   step run s =
     callChain run
       ((stop True s)\<lparr>now := to s,
          trace := trace (stop True s)
                   @ [Increase (to s), FireEvent onComplete (element s) (Some 10)]\<rparr>)"
  by (simp add: step_def Let_def increase_def fireEvent_def stop_def clear_def
           split: option.splits)

lemma step_interpolates:
  "clock s < time s + duration (options s) \<Longrightarrow>
   step run s =
     (let p = (clock s - time s) / duration (options s);
          d = transition (options s) p
      in s\<lparr>delta := d, now := from s + (to s - from s) * d,
           trace := trace s @ [Transition p, Increase (from s + (to s - from s) * d)]\<rparr>)"
  by (simp add: step_def Let_def increase_def setNow_def compute_def)

subsection \<open>Stopping an idle instance\<close>

text \<open>
  C8. Without a run in progress (no timer), \<open>stop\<close> is a no-op whatever the \<open>ignore\<close>
  argument is: the instance is returned as it was, with every field and the trace
  (hence every event) unchanged.
\<close>

theorem stop_idle_noop:
  "timer s = None \<Longrightarrow> stop ignore s = s"
  by (simp add: stop_def)

theorem stop_idle_noop_witness:
  "timer (sample_fx default_options) = None
   \<and> stop False (sample_fx default_options) = sample_fx default_options
   \<and> stop True (sample_fx default_options) = sample_fx default_options"
  using stop_idle_noop [of "sample_fx default_options" False]
    stop_idle_noop [of "sample_fx default_options" True]
  by (simp add: sample_fx_def)

subsection \<open>The wait policy of start\<close>

text \<open>
  C3. With \<open>wait\<close> true and a run in progress (timer set), \<open>start a b\<close> returns the
  instance as it was: \<open>from\<close>, \<open>to\<close>, \<open>change\<close> and \<open>time\<close> keep their values, the
  timer and the host's handles are untouched (nothing is scheduled), and the trace is
  the same (no event is fired).
\<close>

theorem start_rejected_while_running:
  "wait (options s) \<Longrightarrow> timer s \<noteq> None \<Longrightarrow> start a b s = s"
  by (simp add: start_def)

theorem start_rejected_while_running_witness:
  "wait (options (start 1 0 (sample_fx default_options)))
   \<and> timer (start 1 0 (sample_fx default_options)) \<noteq> None
   \<and> start 0 1 (start 1 0 (sample_fx default_options)) =
       (sample_fx default_options)
         \<lparr>from := 1, to := 0, change := - 1, time := 0, timer := Some 1, next_handle := 2,
          trace := [Periodical (Some 20) 1, FireEvent onStart ''container'' None]\<rparr>"
  using start_rejected_while_running [of "start 1 0 (sample_fx default_options)" 0 1]
  by (simp add: run_defs)

text \<open>
  C4. With \<open>wait\<close> false and a run in progress, \<open>start a b\<close> first clears the timer
  and fires \<open>onCancel\<close> for the old run (the \<open>stop\<close> contract), then sets \<open>from = a\<close>,
  \<open>to = b\<close>, \<open>change = b - a\<close> and \<open>time\<close>, schedules the periodic ticks, and then
  fires \<open>onStart\<close>. The trace gives the order.
\<close>

theorem start_preempts:
  "\<not> wait (options s) \<Longrightarrow> timer s = Some h \<Longrightarrow>
   start a b s =
     s\<lparr>from := a, to := b, change := b - a, time := clock s,
       timer := Some (next_handle s), next_handle := Suc (next_handle s),
       trace := trace s @ [Clear h, FireEvent onCancel (element s) None,
                           Periodical (period (fps (options s))) (next_handle s),
                           FireEvent onStart (element s) None]\<rparr>"
  by (simp add: start_def stop_def clear_def periodical_def fireEvent_def)

theorem start_preempts_witness:
  "\<not> wait (options (start 1 0 (sample_fx (default_options\<lparr>wait := False\<rparr>))))
   \<and> timer (start 1 0 (sample_fx (default_options\<lparr>wait := False\<rparr>))) = Some 1
   \<and> start 0 1 (start 1 0 (sample_fx (default_options\<lparr>wait := False\<rparr>))) =
       (sample_fx (default_options\<lparr>wait := False\<rparr>))
         \<lparr>from := 0, to := 1, change := 1, time := 0, timer := Some 2, next_handle := 3,
          trace := [Periodical (Some 20) 1, FireEvent onStart ''container'' None,
                    Clear 1, FireEvent onCancel ''container'' None,
                    Periodical (Some 20) 2, FireEvent onStart ''container'' None]\<rparr>"
  using start_preempts [of "start 1 0 (sample_fx (default_options\<lparr>wait := False\<rparr>))" 1 0 1]
  by (simp add: run_defs)

subsection \<open>Cancelling and completing\<close>

text \<open>
  C5. For an active run (timer set), an explicit \<open>stop()\<close> (no argument, or \<open>ignore\<close>
  false) clears the timer and fires \<open>onCancel\<close> once and nothing else; as the timer
  is gone, a later firing of the host's timer does not reach \<open>step\<close>, so \<open>onComplete\<close>
  is not fired. A tick at or after the duration (natural completion) clears the timer
  without \<open>onCancel\<close>, calls the hook, and fires \<open>onComplete\<close> once (with delay 10)
  before the chain is called.
\<close>

theorem cancel_xor_complete:
  "timer s = Some h \<Longrightarrow>
     stop False s =
       s\<lparr>timer := None, trace := trace s @ [Clear h, FireEvent onCancel (element s) None]\<rparr>
   \<and> invoke run (Tick t) (stop False s) = (stop False s)\<lparr>clock := t\<rparr>
   \<and> (\<not> clock s < time s + duration (options s) \<longrightarrow>
        step run s =
          callChain run
            (s\<lparr>timer := None, now := to s,
               trace := trace s @ [Clear h, Increase (to s),
                                   FireEvent onComplete (element s) (Some 10)]\<rparr>))"
  by (simp add: stop_running step_completes)

theorem cancel_xor_complete_witness:
  "timer ((start 1 0 (sample_fx default_options))\<lparr>clock := 500\<rparr>) = Some 1
   \<and> \<not> clock ((start 1 0 (sample_fx default_options))\<lparr>clock := 500\<rparr>)
         < time ((start 1 0 (sample_fx default_options))\<lparr>clock := 500\<rparr>)
           + duration (options ((start 1 0 (sample_fx default_options))\<lparr>clock := 500\<rparr>))
   \<and> trace (stop False ((start 1 0 (sample_fx default_options))\<lparr>clock := 500\<rparr>)) =
       [Periodical (Some 20) 1, FireEvent onStart ''container'' None,
        Clear 1, FireEvent onCancel ''container'' None]
   \<and> trace (invoke restart (Tick 520)
               (stop False ((start 1 0 (sample_fx default_options))\<lparr>clock := 500\<rparr>))) =
       [Periodical (Some 20) 1, FireEvent onStart ''container'' None,
        Clear 1, FireEvent onCancel ''container'' None]
   \<and> trace (step restart ((start 1 0 (sample_fx default_options))\<lparr>clock := 500\<rparr>)) =
       [Periodical (Some 20) 1, FireEvent onStart ''container'' None,
        Clear 1, Increase 0, FireEvent onComplete ''container'' (Some 10)]"
  using cancel_xor_complete
    [of "(start 1 0 (sample_fx default_options))\<lparr>clock := 500\<rparr>" 1 restart 520]
  by (simp add: run_defs)

subsection \<open>Interpolation\<close>

text \<open>
  C6. The interpolator is linear: for all reals \<open>a\<close>, \<open>b\<close> and eased progress \<open>d\<close>,
  \<open>compute a b\<close> returns \<open>a + (b - a) * d\<close>. On a tick before the duration has elapsed
  (with a duration other than 0, so that the quotient is a number), \<open>delta\<close> becomes the
  transition of elapsed time over duration, \<open>now\<close> becomes \<open>from + (to - from) * delta\<close>,
  and the hook is then called with that value of \<open>now\<close>.
\<close>

theorem interpolation_linear:
  "compute a b (s\<lparr>delta := d\<rparr>) = a + (b - a) * d
   \<and> (clock s < time s + duration (options s) \<and> duration (options s) \<noteq> 0 \<longrightarrow>
        step run s =
          (let p = (clock s - time s) / duration (options s);
               d = transition (options s) p
           in s\<lparr>delta := d, now := from s + (to s - from s) * d,
                trace := trace s @ [Transition p, Increase (from s + (to s - from s) * d)]\<rparr>))"
  by (simp add: compute_def step_interpolates)

theorem interpolation_linear_witness:
  "clock ((start 0 10 (sample_fx default_options))\<lparr>clock := 250\<rparr>)
     < time ((start 0 10 (sample_fx default_options))\<lparr>clock := 250\<rparr>)
       + duration (options ((start 0 10 (sample_fx default_options))\<lparr>clock := 250\<rparr>))
   \<and> duration (options ((start 0 10 (sample_fx default_options))\<lparr>clock := 250\<rparr>)) \<noteq> 0
   \<and> compute 0 10 ((start 0 10 (sample_fx default_options))\<lparr>clock := 250, delta := 1 / 2\<rparr>) = 5
   \<and> delta (step restart ((start 0 10 (sample_fx default_options))\<lparr>clock := 250\<rparr>)) = 1 / 2
   \<and> now (step restart ((start 0 10 (sample_fx default_options))\<lparr>clock := 250\<rparr>)) = 5
   \<and> trace (step restart ((start 0 10 (sample_fx default_options))\<lparr>clock := 250\<rparr>)) =
       [Periodical (Some 20) 1, FireEvent onStart ''container'' None,
        Transition (1 / 2), Increase 5]"
  using interpolation_linear
    [where a = 0 and b = 10 and d = "1 / 2" and run = restart
       and s = "(start 0 10 (sample_fx default_options))\<lparr>clock := 250\<rparr>"]
  by (simp add: run_defs)

text \<open>
  C7, amended. \<open>step\<close> checks only that the elapsed time is below the duration; it
  never checks that the elapsed time is at least 0. So the bound holds for the ticks
  whose clock reading is not before \<open>this.time\<close>: on such a tick the transition is
  called only in the branch where the elapsed time is below the duration, and its
  argument \<open>p\<close> then satisfies \<open>0 \<le> p < 1\<close>; the completing branch does not call it.
  The value the transition returns is used as it is: \<open>now\<close> is
  \<open>from + (to - from) * transition p\<close>, whatever that value is, so a transition that
  overshoots takes \<open>now\<close> outside the interval from \<open>from\<close> to \<open>to\<close> (the concrete run
  after the theorem is one).
\<close>

theorem transition_argument_bounded:
  assumes "time s \<le> clock s"
  shows "if clock s < time s + duration (options s) then
           (let p = (clock s - time s) / duration (options s)
            in 0 \<le> p \<and> p < 1
               \<and> step run s =
                   s\<lparr>delta := transition (options s) p,
                     now := from s + (to s - from s) * transition (options s) p,
                     trace := trace s @ [Transition p,
                        Increase (from s + (to s - from s) * transition (options s) p)]\<rparr>)
         else
           step run s =
             callChain run
               (s\<lparr>timer := None, now := to s,
                  trace := trace s @ (case timer s of None \<Rightarrow> [] | Some h \<Rightarrow> [Clear h])
                             @ [Increase (to s), FireEvent onComplete (element s) (Some 10)]\<rparr>)"
proof (cases "clock s < time s + duration (options s)")
  case True
  with assms have pos: "0 < duration (options s)" by simp
  with assms True have "0 \<le> (clock s - time s) / duration (options s)"
    and "(clock s - time s) / duration (options s) < 1"
    by (simp_all add: field_simps)
  with True step_interpolates [OF True, of run] show ?thesis
    by (simp add: Let_def)
next
  case False
  show ?thesis
  proof (cases "timer s")
    case None
    then have "stop True s = s\<lparr>timer := None\<rparr>"
      by (cases s) (simp add: stop_def)
    with None False step_completes [OF False, of run] show ?thesis
      by simp
  next
    case (Some h)
    with False step_completes [OF False, of run] show ?thesis
      by (simp add: stop_running)
  qed
qed

theorem transition_argument_bounded_witness:
  "time ((start 0 10 (sample_fx overshoot_options))\<lparr>clock := 250\<rparr>)
     \<le> clock ((start 0 10 (sample_fx overshoot_options))\<lparr>clock := 250\<rparr>)
   \<and> trace (step restart ((start 0 10 (sample_fx overshoot_options))\<lparr>clock := 250\<rparr>)) =
       [Periodical (Some 20) 1, FireEvent onStart ''container'' None,
        Transition (1 / 2), Increase (- 5 / 4)]
   \<and> now (step restart ((start 0 10 (sample_fx overshoot_options))\<lparr>clock := 250\<rparr>))
       < from (step restart ((start 0 10 (sample_fx overshoot_options))\<lparr>clock := 250\<rparr>))
   \<and> from (step restart ((start 0 10 (sample_fx overshoot_options))\<lparr>clock := 250\<rparr>))
       < to (step restart ((start 0 10 (sample_fx overshoot_options))\<lparr>clock := 250\<rparr>))"
  using transition_argument_bounded
    [of "(start 0 10 (sample_fx overshoot_options))\<lparr>clock := 250\<rparr>" restart]
  by (simp add: run_defs)

text \<open>
  For every tick of every run the bound fails: a run is started while the clock reads
  100, and the timer then fires while the clock reads 50 (the wall clock was set
  back). With a duration of 100 the tick is in the interpolating branch, and the
  transition is called with \<open>(50 - 100) / 100\<close>, which is below 0.
\<close>

theorem transition_argument_negative_counterexample:
  "trace (invoke_all restart [CallStart 0 1, Tick 50]
            ((sample_fx linear_options)\<lparr>clock := 100\<rparr>)) =
     [Periodical (Some 20) 1, FireEvent onStart ''container'' None,
      Transition (- 1 / 2), Increase (- 1 / 2)]
   \<and> (- 1 / 2 :: real) < 0"
  by (simp add: run_defs)

subsection \<open>A run from its start to its completion\<close>

lemma same_run_refl: "same_run u u"
  by (simp add: same_run_def)

lemma same_run_trans: "same_run u v \<Longrightarrow> same_run v w \<Longrightarrow> same_run u w"
  by (simp add: same_run_def)

lemma in_run_cong: "same_run u v \<Longrightarrow> in_run v c = in_run u c"
  by (cases c) (simp_all add: same_run_def)

lemma invoke_in_run:
  assumes "timer u \<noteq> None" and "in_run u c"
  shows "same_run u (invoke run c u)
         \<and> chain_queue (invoke run c u) = chain_queue u @ chained [c]"
proof (cases c)
  case (Tick t)
  with assms
  have "clock (u\<lparr>clock := t\<rparr>)
          < time (u\<lparr>clock := t\<rparr>) + duration (options (u\<lparr>clock := t\<rparr>))"
    by simp
  from step_interpolates [OF this, of run] Tick assms show ?thesis
    by (simp add: same_run_def Let_def)
next
  case (CallSet v)
  then show ?thesis by (simp add: same_run_def set_fx_def increase_def fireEvent_def)
next
  case (CallStart a b)
  with assms show ?thesis by (simp add: same_run_def start_def)
next
  case (CallStop i)
  with assms show ?thesis by simp
next
  case (CallChain f)
  then show ?thesis by (simp add: same_run_def chain_fx_def)
qed

lemma invoke_all_in_run:
  "timer u \<noteq> None \<Longrightarrow> \<forall>c\<in>set cs. in_run u c \<Longrightarrow>
   same_run u (invoke_all run cs u)
   \<and> chain_queue (invoke_all run cs u) = chain_queue u @ chained cs"
proof (induction cs arbitrary: u)
  case Nil
  then show ?case by (simp add: same_run_refl)
next
  case (Cons c cs)
  let ?v = "invoke run c u"
  from Cons.prems have c: "in_run u c" by simp
  from invoke_in_run [OF Cons.prems(1) c, of run]
  have sr: "same_run u ?v" and q: "chain_queue ?v = chain_queue u @ chained [c]"
    by simp_all
  from sr Cons.prems(1) have t: "timer ?v \<noteq> None" by (simp add: same_run_def)
  from Cons.prems(2) sr have "\<forall>c\<in>set cs. in_run ?v c" by (simp add: in_run_cong)
  from Cons.IH [OF t this]
  have sr': "same_run ?v (invoke_all run cs ?v)"
    and q': "chain_queue (invoke_all run cs ?v) = chain_queue ?v @ chained cs"
    by simp_all
  have "chained (c # cs) = chained [c] @ chained cs" by (cases c) simp_all
  with q q' same_run_trans [OF sr sr'] show ?case by simp
qed

text \<open>
  The state in which a run that was started by an accepted \<open>start a b\<close> reaches its
  completing tick, after any calls that left it in progress.
\<close>

lemma run_until_completion:
  assumes "wait (options s) \<longrightarrow> timer s = None"
    and "\<forall>c\<in>set cs. in_run (start a b s) c"
    and "\<not> t < clock s + duration (options s)"
  shows "step run ((invoke_all run cs (start a b s))\<lparr>clock := t\<rparr>) =
           callChain run
             ((invoke_all run cs (start a b s))
                \<lparr>clock := t, timer := None, now := b,
                 trace := trace (invoke_all run cs (start a b s))
                          @ [Clear (next_handle s), Increase b,
                             FireEvent onComplete (element s) (Some 10)]\<rparr>)"
    and "chain_queue (invoke_all run cs (start a b s)) = chain_queue s @ chained cs"
proof -
  let ?u = "start a b s"
  let ?r = "invoke_all run cs ?u"
  from start_accepted [OF assms(1), of a b]
  have u: "to ?u = b" "time ?u = clock s" "timer ?u = Some (next_handle s)"
    "options ?u = options s" "element ?u = element s" "chain_queue ?u = chain_queue s"
    by simp_all
  from u(3) have "timer ?u \<noteq> None" by simp
  from invoke_all_in_run [OF this assms(2), of run]
  have sr: "same_run ?u ?r" and q: "chain_queue ?r = chain_queue ?u @ chained cs"
    by simp_all
  from q u(6) show "chain_queue ?r = chain_queue s @ chained cs" by simp
  from sr u have r: "to ?r = b" "time ?r = clock s" "timer ?r = Some (next_handle s)"
    "options ?r = options s" "element ?r = element s"
    by (simp_all add: same_run_def)
  with assms(3)
  have "\<not> clock (?r\<lparr>clock := t\<rparr>)
          < time (?r\<lparr>clock := t\<rparr>) + duration (options (?r\<lparr>clock := t\<rparr>))"
    by simp
  from step_completes [OF this, of run] r
  show "step run (?r\<lparr>clock := t\<rparr>) =
          callChain run
            (?r\<lparr>clock := t, timer := None, now := b,
               trace := trace ?r @ [Clear (next_handle s), Increase b,
                                    FireEvent onComplete (element s) (Some 10)]\<rparr>)"
    by (simp add: stop_running)
qed

text \<open>
  C2. Take a run started by an accepted \<open>start a b\<close> (\<open>wait\<close> false, or no run in
  progress), followed by any calls that leave it in progress. When a tick fires with
  the elapsed time at or beyond the duration, the timer is cleared, \<open>now\<close> becomes
  exactly \<open>b\<close>, the target passed to that \<open>start\<close> (whatever eased value the previous
  tick or a \<open>set\<close> had left in \<open>now\<close>), the hook is called once more with \<open>b\<close>, and
  \<open>onComplete\<close> is fired, before the chain is called.
\<close>

theorem completion_sets_exact_target:
  assumes "wait (options s) \<longrightarrow> timer s = None"
    and "\<forall>c\<in>set cs. in_run (start a b s) c"
    and "\<not> t < clock s + duration (options s)"
  shows "let r = invoke_all run cs (start a b s)
         in step run (r\<lparr>clock := t\<rparr>) =
              callChain run
                (r\<lparr>clock := t, timer := None, now := b,
                   trace := trace r @ [Clear (next_handle s), Increase b,
                                       FireEvent onComplete (element s) (Some 10)]\<rparr>)"
  using run_until_completion(1) [OF assms, of run] by (simp add: Let_def)

theorem completion_sets_exact_target_witness:
  "wait (options (sample_fx linear_options)) \<and> timer (sample_fx linear_options) = None
   \<and> list_all (in_run (start 0 1 (sample_fx linear_options)))
         [Tick 20, Tick 40, CallSet 5, CallStart 7 8, Tick 80]
   \<and> \<not> (100 :: real) < clock (sample_fx linear_options)
                          + duration (options (sample_fx linear_options))
   \<and> now (invoke_all restart [Tick 20, Tick 40, CallSet 5, CallStart 7 8, Tick 80]
            (start 0 1 (sample_fx linear_options))) = 4 / 5
   \<and> now (step restart
         ((invoke_all restart [Tick 20, Tick 40, CallSet 5, CallStart 7 8, Tick 80]
            (start 0 1 (sample_fx linear_options)))\<lparr>clock := 100\<rparr>)) = 1
   \<and> trace (step restart
         ((invoke_all restart [Tick 20, Tick 40, CallSet 5, CallStart 7 8, Tick 80]
            (start 0 1 (sample_fx linear_options)))\<lparr>clock := 100\<rparr>)) =
       [Periodical (Some 20) 1, FireEvent onStart ''container'' None,
        Transition (1 / 5), Increase (1 / 5), Transition (2 / 5), Increase (2 / 5),
        Increase 5, FireEvent onSet ''container'' None,
        Transition (4 / 5), Increase (4 / 5),
        Clear 1, Increase 1, FireEvent onComplete ''container'' (Some 10)]"
  using completion_sets_exact_target
    [of "sample_fx linear_options" "[Tick 20, Tick 40, CallSet 5, CallStart 7 8, Tick 80]"
        0 1 100 restart]
  by (simp add: run_defs)

subsection \<open>Draining the chain\<close>

lemma delivered_append: "delivered (xs @ ys) = delivered xs @ delivered ys"
  by (induction xs rule: delivered.induct) simp_all

lemma deferred_append: "deferred (xs @ ys) = deferred xs @ deferred ys"
  by (induction xs rule: deferred.induct) simp_all

text \<open>
  C1, amended. Take a run started by an accepted \<open>start a b\<close>, followed by calls that
  leave it in progress, among them calls of \<open>chain\<close>. At the completing tick the queue
  holds the callables queued before the \<open>start\<close> followed by those queued after it, in
  the order in which they were queued. The tick clears the timer, calls the hook with
  \<open>b\<close> and calls \<open>fireEvent\<close> for \<open>onComplete\<close> with delay 10, and only then invokes the
  callable at the head of the queue (a follow-up queued after the \<open>start\<close> only when
  nothing is queued before it), once, on an instance from whose queue it has been
  removed; the callables behind it are not invoked by this tick and stay queued in
  their order. With an empty queue nothing is invoked. When the callable is invoked,
  \<open>onComplete\<close> has been fired but awaits its deferred delivery: the listeners of the
  complete event have not run yet.
\<close>

theorem chain_drained_after_complete:
  assumes "wait (options s) \<longrightarrow> timer s = None"
    and "\<forall>c\<in>set cs. in_run (start a b s) c"
    and "\<not> t < clock s + duration (options s)"
  shows "let r = invoke_all run cs (start a b s);
             m = r\<lparr>clock := t, timer := None, now := b,
                   trace := trace r @ [Clear (next_handle s), Increase b,
                                       FireEvent onComplete (element s) (Some 10)]\<rparr>
         in step run (r\<lparr>clock := t\<rparr>) =
              (case chain_queue s @ chained cs of
                 [] \<Rightarrow> m
               | f # fs \<Rightarrow> run f (m\<lparr>chain_queue := fs\<rparr>))
            \<and> delivered (trace m) = delivered (trace r)
            \<and> deferred (trace m) = deferred (trace r) @ [(onComplete, element s, 10)]"
  using run_until_completion [OF assms, of run]
  by (simp add: Let_def callChain_def delivered_append deferred_append split: list.splits)

theorem chain_drained_after_complete_witness:
  "wait (options (sample_fx default_options)) \<and> timer (sample_fx default_options) = None
   \<and> list_all (in_run (start 1 0 (sample_fx default_options)))
         [CallChain (0, 1), CallSet 3, CallChain (5, 6)]
   \<and> \<not> (500 :: real) < clock (sample_fx default_options)
                          + duration (options (sample_fx default_options))
   \<and> trace (step restart
         ((invoke_all restart [CallChain (0, 1), CallSet 3, CallChain (5, 6)]
            (start 1 0 (sample_fx default_options)))\<lparr>clock := 500\<rparr>)) =
       [Periodical (Some 20) 1, FireEvent onStart ''container'' None,
        Increase 3, FireEvent onSet ''container'' None,
        Clear 1, Increase 0, FireEvent onComplete ''container'' (Some 10),
        Periodical (Some 20) 2, FireEvent onStart ''container'' None]
   \<and> to (step restart
         ((invoke_all restart [CallChain (0, 1), CallSet 3, CallChain (5, 6)]
            (start 1 0 (sample_fx default_options)))\<lparr>clock := 500\<rparr>)) = 1
   \<and> chain_queue (step restart
         ((invoke_all restart [CallChain (0, 1), CallSet 3, CallChain (5, 6)]
            (start 1 0 (sample_fx default_options)))\<lparr>clock := 500\<rparr>)) = [(5, 6)]
   \<and> deferred (trace (step restart
         ((invoke_all restart [CallChain (0, 1), CallSet 3, CallChain (5, 6)]
            (start 1 0 (sample_fx default_options)))\<lparr>clock := 500\<rparr>))) =
       [(onComplete, ''container'', 10)]"
  using chain_drained_after_complete
    [of "sample_fx default_options" "[CallChain (0, 1), CallSet 3, CallChain (5, 6)]"
        1 0 500 restart]
  by (simp add: run_defs)

text \<open>
  As stated for the complete event and for every follow-up, the property fails. In
  the first run a callable \<open>(5, 6)\<close> is queued before \<open>start 1 0\<close> and the follow-up
  \<open>(0, 1)\<close> after it: the completing tick invokes \<open>(5, 6)\<close> (the new target is 6) and
  the follow-up is still queued, not invoked. In the second run the follow-up is alone
  in the queue: when the tick returns it has been invoked (its \<open>onStart\<close> has been
  delivered), while \<open>onComplete\<close> still awaits its delivery 10 ms later.
\<close>

theorem chained_action_before_complete_delivery_counterexample:
  "chain_queue (step restart
      ((invoke_all restart [CallChain (0, 1)]
          (start 1 0 (chain_fx (5, 6) (sample_fx default_options))))\<lparr>clock := 500\<rparr>))
     = [(0, 1)]
   \<and> to (step restart
      ((invoke_all restart [CallChain (0, 1)]
          (start 1 0 (chain_fx (5, 6) (sample_fx default_options))))\<lparr>clock := 500\<rparr>))
     = 6
   \<and> trace (step restart
      ((invoke_all restart [CallChain (0, 1)]
          (start 1 0 (sample_fx default_options)))\<lparr>clock := 500\<rparr>))
     = [Periodical (Some 20) 1, FireEvent onStart ''container'' None,
        Clear 1, Increase 0, FireEvent onComplete ''container'' (Some 10),
        Periodical (Some 20) 2, FireEvent onStart ''container'' None]
   \<and> delivered (trace (step restart
      ((invoke_all restart [CallChain (0, 1)]
          (start 1 0 (sample_fx default_options)))\<lparr>clock := 500\<rparr>)))
     = [(onStart, ''container''), (onStart, ''container'')]
   \<and> deferred (trace (step restart
      ((invoke_all restart [CallChain (0, 1)]
          (start 1 0 (sample_fx default_options)))\<lparr>clock := 500\<rparr>)))
     = [(onComplete, ''container'', 10)]"
  by (simp add: run_defs)

text \<open>
  C9. In the completing branch of \<open>step\<close> the timer is cleared (by \<open>stop\<close> with
  \<open>ignore\<close> true) before \<open>now\<close> is set to \<open>to\<close>, the hook is called, \<open>onComplete\<close> is
  fired and the chain is called. The callable at the head of the queue is therefore
  invoked on an instance \<open>m\<close> without a timer, and a \<open>start a b\<close> on \<open>m\<close> is accepted
  whatever the \<open>wait\<close> option is: it sets the fields, schedules the ticks and fires
  \<open>onStart\<close>, and no \<open>onCancel\<close> is fired.
\<close>

theorem chained_start_accepted:
  assumes "\<not> clock s < time s + duration (options s)"
    and "chain_queue s = f # fs"
  shows "let m = (stop True s)\<lparr>now := to s,
                   trace := trace (stop True s) @ [Increase (to s),
                                       FireEvent onComplete (element s) (Some 10)],
                   chain_queue := fs\<rparr>
         in step run s = run f m \<and> timer m = None
            \<and> start a b m =
                m\<lparr>from := a, to := b, change := b - a, time := clock s,
                  timer := Some (next_handle s), next_handle := Suc (next_handle s),
                  trace := trace m @ [Periodical (period (fps (options s))) (next_handle s),
                                      FireEvent onStart (element s) None]\<rparr>"
proof -
  let ?m = "(stop True s)\<lparr>now := to s,
                   trace := trace (stop True s) @ [Increase (to s),
                                       FireEvent onComplete (element s) (Some 10)],
                   chain_queue := fs\<rparr>"
  have idle: "timer ?m = None"
    by (simp add: stop_def clear_def split: option.splits)
  have same: "clock ?m = clock s" "next_handle ?m = next_handle s" "options ?m = options s"
    "element ?m = element s"
    by (simp_all add: stop_def clear_def split: option.splits)
  from step_completes [OF assms(1), of run] assms(2)
  have "step run s = run f ?m"
    by (cases "timer s") (simp_all add: callChain_def stop_def clear_def)
  with idle start_idle [OF idle, of a b] same show ?thesis
    by (simp add: Let_def)
qed

theorem chained_start_accepted_witness:
  "\<not> clock ((chain_fx (0, 1) (start 1 0 (sample_fx default_options)))\<lparr>clock := 500\<rparr>)
       < time ((chain_fx (0, 1) (start 1 0 (sample_fx default_options)))\<lparr>clock := 500\<rparr>)
         + duration (options
             ((chain_fx (0, 1) (start 1 0 (sample_fx default_options)))\<lparr>clock := 500\<rparr>))
   \<and> chain_queue ((chain_fx (0, 1) (start 1 0 (sample_fx default_options)))\<lparr>clock := 500\<rparr>)
       = [(0, 1)]
   \<and> wait (options ((chain_fx (0, 1) (start 1 0 (sample_fx default_options)))\<lparr>clock := 500\<rparr>))
   \<and> step restart ((chain_fx (0, 1) (start 1 0 (sample_fx default_options)))\<lparr>clock := 500\<rparr>) =
       (sample_fx default_options)
         \<lparr>from := 0, to := 1, change := 1, time := 500, now := 0, timer := Some 2,
          clock := 500, next_handle := 3,
          trace := [Periodical (Some 20) 1, FireEvent onStart ''container'' None,
                    Clear 1, Increase 0, FireEvent onComplete ''container'' (Some 10),
                    Periodical (Some 20) 2, FireEvent onStart ''container'' None]\<rparr>"
  using chained_start_accepted
    [where s = "(chain_fx (0, 1) (start 1 0 (sample_fx default_options)))\<lparr>clock := 500\<rparr>"
       and f = "(0, 1)" and fs = "[]" and run = restart and a = 0 and b = 1]
  by (simp add: run_defs)

subsection \<open>The cached field change\<close>

lemma differ_only_in_changeD:
  "differ_only_in_change u v \<Longrightarrow> v = u\<lparr>change := change v\<rparr>"
  by (cases u, cases v) (simp add: differ_only_in_change_def)

lemma differ_only_in_changeI:
  "differ_only_in_change u (u\<lparr>change := c\<rparr>)"
  by (simp add: differ_only_in_change_def)

lemma stop_change:
  "stop i (s\<lparr>change := c\<rparr>) = (stop i s)\<lparr>change := c\<rparr>"
  by (simp add: stop_def clear_def fireEvent_def Let_def split: option.splits)

lemma set_fx_change:
  "set_fx v (s\<lparr>change := c\<rparr>) = (set_fx v s)\<lparr>change := c\<rparr>"
  by (simp add: set_fx_def increase_def fireEvent_def)

lemma start_change:
  "differ_only_in_change (start a b s) (start a b (s\<lparr>change := c\<rparr>))"
  by (simp add: differ_only_in_change_def start_def stop_def clear_def fireEvent_def
        periodical_def Let_def split: option.splits)

lemma callChain_change:
  assumes run: "\<forall>f u v. differ_only_in_change u v
                  \<longrightarrow> differ_only_in_change (run f u) (run f v)"
    and d: "differ_only_in_change s s'"
  shows "differ_only_in_change (callChain run s) (callChain run s')"
proof (cases "chain_queue s")
  case Nil
  with d differ_only_in_changeD [OF d] show ?thesis
    by (cases s, cases s') (simp add: callChain_def)
next
  case (Cons f fs)
  from differ_only_in_changeD [OF d] have q: "chain_queue s' = chain_queue s"
    by (cases s, cases s') simp
  from d have "differ_only_in_change (s\<lparr>chain_queue := fs\<rparr>) (s'\<lparr>chain_queue := fs\<rparr>)"
    by (cases s, cases s') (simp add: differ_only_in_change_def)
  with run
  have "differ_only_in_change (run f (s\<lparr>chain_queue := fs\<rparr>)) (run f (s'\<lparr>chain_queue := fs\<rparr>))"
    by blast
  with Cons q show ?thesis by (simp add: callChain_def)
qed

lemma step_change:
  assumes run: "\<forall>f u v. differ_only_in_change u v
                  \<longrightarrow> differ_only_in_change (run f u) (run f v)"
  shows "differ_only_in_change (step run s) (step run (s\<lparr>change := c\<rparr>))"
proof (cases "clock s < time s + duration (options s)")
  case True
  then have "clock (s\<lparr>change := c\<rparr>)
               < time (s\<lparr>change := c\<rparr>) + duration (options (s\<lparr>change := c\<rparr>))"
    by simp
  from step_interpolates [OF this, of run] step_interpolates [OF True, of run]
  show ?thesis by (simp add: Let_def differ_only_in_change_def)
next
  case False
  let ?m = "\<lambda>u. (stop True u)\<lparr>now := to u,
              trace := trace (stop True u)
                       @ [Increase (to u), FireEvent onComplete (element u) (Some 10)]\<rparr>"
  from False
  have "\<not> clock (s\<lparr>change := c\<rparr>)
            < time (s\<lparr>change := c\<rparr>) + duration (options (s\<lparr>change := c\<rparr>))"
    by simp
  from step_completes [OF this, of run] step_completes [OF False, of run]
  have eq: "step run s = callChain run (?m s)"
    "step run (s\<lparr>change := c\<rparr>) = callChain run (?m (s\<lparr>change := c\<rparr>))"
    by simp_all
  have "differ_only_in_change (?m s) (?m (s\<lparr>change := c\<rparr>))"
    by (simp add: stop_change differ_only_in_change_def)
  from callChain_change [OF run this] eq show ?thesis by simp
qed

lemma restart_change:
  assumes "differ_only_in_change u v"
  shows "differ_only_in_change (restart f u) (restart f v)"
proof -
  from differ_only_in_changeD [OF assms] obtain c where "v = u\<lparr>change := c\<rparr>" by blast
  with start_change [where s = u and c = c] show ?thesis by (simp add: restart_def)
qed

text \<open>
  C10. \<open>change\<close> is written by an accepted \<open>start\<close> (to \<open>b - a\<close>) and read by no
  method: \<open>compute\<close> takes \<open>to - from\<close> from its arguments. For two instances that
  differ only in \<open>change\<close>, \<open>step\<close>, \<open>set\<close>, \<open>stop\<close> and \<open>start\<close> give instances that
  again differ only in \<open>change\<close>: the same trace (hook values, events, timer calls) and
  the same value in every other field. For \<open>step\<close> this needs the chained callables,
  which are the caller's code, not to depend on \<open>change\<close> either.
\<close>

theorem change_never_read:
  assumes "\<forall>f u v. differ_only_in_change u v
             \<longrightarrow> differ_only_in_change (run f u) (run f v)"
    and "differ_only_in_change s s'"
  shows "differ_only_in_change (step run s) (step run s')
       \<and> differ_only_in_change (set_fx x s) (set_fx x s')
       \<and> differ_only_in_change (stop i s) (stop i s')
       \<and> differ_only_in_change (start a b s) (start a b s')
       \<and> compute a b s' = compute a b s
       \<and> ((wait (options s) \<longrightarrow> timer s = None) \<longrightarrow> change (start a b s) = b - a)"
proof -
  from differ_only_in_changeD [OF assms(2)] obtain c where s': "s' = s\<lparr>change := c\<rparr>"
    by blast
  from step_change [OF assms(1), where s = s and c = c]
    start_accepted [where s = s and a = a and b = b]
    start_change [where s = s and a = a and b = b and c = c]
  show ?thesis
    unfolding s' by (simp add: set_fx_change stop_change compute_def differ_only_in_changeI)
qed

theorem change_never_read_witness:
  "differ_only_in_change
        ((chain_fx (0, 1) (start 1 0 (sample_fx (default_options\<lparr>wait := False\<rparr>))))
           \<lparr>clock := 500\<rparr>)
        ((chain_fx (0, 1) (start 1 0 (sample_fx (default_options\<lparr>wait := False\<rparr>))))
           \<lparr>clock := 500, change := 42\<rparr>)
   \<and> \<not> wait (options ((chain_fx (0, 1) (start 1 0 (sample_fx (default_options\<lparr>wait := False\<rparr>))))
           \<lparr>clock := 500\<rparr>))
   \<and> differ_only_in_change
        (step restart
          ((chain_fx (0, 1) (start 1 0 (sample_fx (default_options\<lparr>wait := False\<rparr>))))
             \<lparr>clock := 500\<rparr>))
        (step restart
          ((chain_fx (0, 1) (start 1 0 (sample_fx (default_options\<lparr>wait := False\<rparr>))))
             \<lparr>clock := 500, change := 42\<rparr>))
   \<and> differ_only_in_change
        (start 0 1
          ((chain_fx (0, 1) (start 1 0 (sample_fx (default_options\<lparr>wait := False\<rparr>))))
             \<lparr>clock := 500\<rparr>))
        (start 0 1
          ((chain_fx (0, 1) (start 1 0 (sample_fx (default_options\<lparr>wait := False\<rparr>))))
             \<lparr>clock := 500, change := 42\<rparr>))
   \<and> change (start 0 1
          ((chain_fx (0, 1) (start 1 0 (sample_fx (default_options\<lparr>wait := False\<rparr>))))
             \<lparr>clock := 500\<rparr>)) = 1"
proof -
  let ?S = "(chain_fx (0, 1) (start 1 0 (sample_fx (default_options\<lparr>wait := False\<rparr>))))
              \<lparr>clock := 500\<rparr>"
  have run: "\<forall>f (u :: (real \<times> real, string) fx) v.
      differ_only_in_change u v \<longrightarrow> differ_only_in_change (restart f u) (restart f v)"
    using restart_change by blast
  have d: "differ_only_in_change ?S (?S\<lparr>change := 42\<rparr>)"
    by (simp add: differ_only_in_change_def)
  have acc: "\<not> wait (options ?S)"
    by (simp add: run_defs)
  from change_never_read [OF run d, where a = 0 and b = 1] d acc
  show ?thesis by simp
qed

end
